theory Spec2Isabelle
  imports Main "HOL-Library.Sublist"
begin

section \<open>Data model\<close>

text \<open>
  \<^verbatim>\<open>struct Task\<close> of \<^verbatim>\<open>src/main.cpp\<close>: a name and a completion flag. The GLFW variants
  embedded in \<^verbatim>\<open>build/build.sh\<close> add a \<^verbatim>\<open>time_added\<close> field, which no operation
  modelled here reads; the two erase loops below are therefore written over the
  extensible record scheme and apply to both layouts.

  Every \<^verbatim>\<open>std::string\<close> of the program is built from a NUL-terminated buffer (the ImGui
  input buffer, \<^verbatim>\<open>sqlite3_column_text\<close>) and is handed to SQLite as such a buffer again, so
  a \<^typ>\<open>string\<close> stands for the content of such a buffer.
\<close>

record Task =
  name :: string
  is_finished :: bool

text \<open>One row of table \<^verbatim>\<open>tasks(task_name TEXT NOT NULL, task_finished INTEGER NOT NULL)\<close>.\<close>

record row =
  task_name :: string
  task_finished :: int

text \<open>
  The file \<^verbatim>\<open>todo_list.db\<close> as the SQLite calls of the program see it:
  \<^item> \<open>open_ok\<close>: \<^verbatim>\<open>sqlite3_open\<close> returns \<^verbatim>\<open>SQLITE_OK\<close>;
  \<^item> \<open>write_ok\<close>: a statement that writes can be stepped (the file is neither read-only
    nor locked);
  \<^item> \<open>tasks_table\<close>: the rows of table \<^verbatim>\<open>tasks\<close> in rowid order, \<open>None\<close> while the
    table does not exist (every statement naming it then fails to prepare).
\<close>

record database =
  open_ok :: bool
  write_ok :: bool
  tasks_table :: "row list option"

datatype sqlite_rc = SQLITE_OK | SQLITE_ERROR | SQLITE_READONLY | SQLITE_DONE

text \<open>The process-wide vectors \<^verbatim>\<open>tasks\<close> and \<^verbatim>\<open>finished_tasks\<close>, and the database file.\<close>

record app_state =
  tasks :: "Task list"
  finished_tasks :: "Task list"
  db :: database

section \<open>The SQLite statements the program issues\<close>

text \<open>
  The four statements that are prepared with \<^verbatim>\<open>sqlite3_prepare_v2\<close>; the parameters of
  \<open>UpdateFinished\<close> are the two values bound to its placeholders.
\<close>

datatype statement =
    CreateTable
  | SelectWhereFinished int
  | UpdateFinished int string
  | DeleteFinished

definition sqlite3_open :: "database \<Rightarrow> sqlite_rc" where
  "sqlite3_open d = (if open_ok d then SQLITE_OK else SQLITE_ERROR)"

definition sqlite3_prepare_v2 :: "database \<Rightarrow> statement \<Rightarrow> sqlite_rc" where
  "sqlite3_prepare_v2 d s =
     (case s of
        CreateTable \<Rightarrow> SQLITE_OK
      | _ \<Rightarrow> (case tasks_table d of None \<Rightarrow> SQLITE_ERROR | Some rows \<Rightarrow> SQLITE_OK))"

text \<open>The rows a prepared \<^verbatim>\<open>SELECT ... WHERE task_finished = v\<close> yields, in table order.\<close>

definition select_rows :: "database \<Rightarrow> int \<Rightarrow> row list" where
  "select_rows d v =
     (case tasks_table d of
        None \<Rightarrow> []
      | Some rows \<Rightarrow> filter (\<lambda>r. task_finished r = v) rows)"

definition set_finished_where :: "int \<Rightarrow> string \<Rightarrow> row list \<Rightarrow> row list" where
  "set_finished_where v n rows =
     map (\<lambda>r. if task_name r = n then r\<lparr>task_finished := v\<rparr> else r) rows"

text \<open>
  \<^verbatim>\<open>sqlite3_step\<close> on a prepared statement that writes. \<^verbatim>\<open>CREATE TABLE IF NOT EXISTS\<close>
  on an existing table is a no-op.
\<close>

definition sqlite3_step :: "database \<Rightarrow> statement \<Rightarrow> sqlite_rc \<times> database" where
  "sqlite3_step d s =
     (case s of
        CreateTable \<Rightarrow>
          (case tasks_table d of
             Some rows \<Rightarrow> (SQLITE_DONE, d)
           | None \<Rightarrow> if write_ok d then (SQLITE_DONE, d\<lparr>tasks_table := Some []\<rparr>)
                     else (SQLITE_READONLY, d))
      | SelectWhereFinished v \<Rightarrow> (SQLITE_DONE, d)
      | UpdateFinished v n \<Rightarrow>
          (case tasks_table d of
             None \<Rightarrow> (SQLITE_ERROR, d)
           | Some rows \<Rightarrow>
               if write_ok d
               then (SQLITE_DONE, d\<lparr>tasks_table := Some (set_finished_where v n rows)\<rparr>)
               else (SQLITE_READONLY, d))
      | DeleteFinished \<Rightarrow>
          (case tasks_table d of
             None \<Rightarrow> (SQLITE_ERROR, d)
           | Some rows \<Rightarrow>
               if write_ok d
               then (SQLITE_DONE, d\<lparr>tasks_table := Some (filter (\<lambda>r. task_finished r \<noteq> 1) rows)\<rparr>)
               else (SQLITE_READONLY, d)))"

subsection \<open>\<^verbatim>\<open>sqlite3_exec\<close> on SQL text\<close>

text \<open>
  \<^verbatim>\<open>add_task\<close> builds its \<^verbatim>\<open>INSERT\<close> by pasting the task name between two quote
  characters. SQLite reads a string literal up to the first quote that is not doubled, and
  reads a doubled quote as one quote character. \<open>sql_string_body\<close> is that reading of the
  pasted text: the literal's value when every quote in it is doubled, \<open>None\<close> when a
  single quote ends the literal early (the rest of the name is then read as SQL).
\<close>

fun sql_string_body :: "string \<Rightarrow> string option" where
  "sql_string_body [] = Some []"
| "sql_string_body (c # cs) =
     (if c = CHR 0x27 then
        (case cs of
           [] \<Rightarrow> None
         | d # ds \<Rightarrow>
             if d = CHR 0x27 then map_option (Cons (CHR 0x27)) (sql_string_body ds)
             else None)
      else map_option (Cons c) (sql_string_body cs))"

definition insert_head :: string where
  "insert_head = ''INSERT INTO tasks (task_name, task_finished) VALUES ('' @ [CHR 0x27]"

definition insert_tail :: string where
  "insert_tail = CHR 0x27 # '', 0);''"

text \<open>
  The text is the program's \<^verbatim>\<open>INSERT\<close> with a well-formed literal: the value of the
  literal.
\<close>

definition parse_insert :: "string \<Rightarrow> string option" where
  "parse_insert sql =
     (if length insert_head + length insert_tail \<le> length sql
         \<and> take (length insert_head) sql = insert_head
         \<and> drop (length sql - length insert_tail) sql = insert_tail
      then sql_string_body
             (take (length sql - length insert_head - length insert_tail)
                (drop (length insert_head) sql))
      else None)"

text \<open>
  What SQLite does with any other text (a name whose quote ends the literal early makes
  the rest of the name SQL) is not modelled; it is the parameter \<open>eng\<close> of the
  operations, about which nothing is assumed.
\<close>

type_synonym sql_engine = "string \<Rightarrow> database \<Rightarrow> sqlite_rc \<times> database"

text \<open>
  \<^verbatim>\<open>sqlite3_exec\<close> on the two texts \<^verbatim>\<open>add_task\<close> passes. No transaction is ever opened
  by the program, so \<^verbatim>\<open>COMMIT;\<close> fails and changes nothing.
\<close>

definition sqlite3_exec :: "sql_engine \<Rightarrow> database \<Rightarrow> string \<Rightarrow> sqlite_rc \<times> database" where
  "sqlite3_exec eng d sql =
     (if sql = ''COMMIT;'' then (SQLITE_ERROR, d)
      else
        (case parse_insert sql of
           None \<Rightarrow> eng sql d
         | Some n \<Rightarrow>
             (case tasks_table d of
                None \<Rightarrow> (SQLITE_ERROR, d)
              | Some rows \<Rightarrow>
                  if write_ok d
                  then (SQLITE_OK,
                        d\<lparr>tasks_table := Some (rows @ [\<lparr>task_name = n, task_finished = 0\<rparr>])\<rparr>)
                  else (SQLITE_READONLY, d))))"

section \<open>The operations of \<^verbatim>\<open>src/main.cpp\<close>\<close>

text \<open>
  Output to \<^verbatim>\<open>std::cerr\<close> and \<^verbatim>\<open>std::cout\<close> is not part of the state; each branch that
  only logs is a branch that leaves the state as it is. The GLFW variants of
  \<^verbatim>\<open>build/build.sh\<close> run the same statements with one more column, \<^verbatim>\<open>time_added\<close>, and
  paste the task name into the \<^verbatim>\<open>INSERT\<close> in the same way; they differ in the erase loop of
  \<^verbatim>\<open>delete_tasks\<close>, which has a section of its own below.
\<close>

definition create_database_and_table :: "app_state \<Rightarrow> app_state" where
  "create_database_and_table st =
     (if sqlite3_open (db st) \<noteq> SQLITE_OK then st
      else if sqlite3_prepare_v2 (db st) CreateTable \<noteq> SQLITE_OK then st
      else st\<lparr>db := snd (sqlite3_step (db st) CreateTable)\<rparr>)"

definition add_task :: "sql_engine \<Rightarrow> string \<Rightarrow> app_state \<Rightarrow> app_state" where
  "add_task eng task st =
     (if task \<noteq> [] then
        (let new_task = \<lparr>name = task, is_finished = False\<rparr>;
             st1 = st\<lparr>tasks := tasks st @ [new_task]\<rparr>
         in if sqlite3_open (db st1) = SQLITE_OK then
              (let sql = insert_head @ task @ insert_tail;
                   d1 = snd (sqlite3_exec eng (db st1) sql);
                   d2 = snd (sqlite3_exec eng d1 ''COMMIT;'')
               in st1\<lparr>db := d2\<rparr>)
            else st1)
      else st)"

text \<open>
  The value of \<^verbatim>\<open>result\<close> after the \<^verbatim>\<open>INSERT\<close> of \<^verbatim>\<open>add_task\<close>, \<open>None\<close> when that line
  is not reached. The insertion succeeded against storage when it is \<^verbatim>\<open>SQLITE_OK\<close>.
\<close>

definition add_task_result :: "sql_engine \<Rightarrow> string \<Rightarrow> app_state \<Rightarrow> sqlite_rc option" where
  "add_task_result eng task st =
     (if task \<noteq> [] \<and> sqlite3_open (db st) = SQLITE_OK
      then Some (fst (sqlite3_exec eng (db st) (insert_head @ task @ insert_tail)))
      else None)"

definition load_tasks_from_database :: "app_state \<Rightarrow> app_state" where
  "load_tasks_from_database st =
     (if sqlite3_open (db st) = SQLITE_OK then
        (if sqlite3_prepare_v2 (db st) (SelectWhereFinished 0) \<noteq> SQLITE_OK then st
         else st\<lparr>tasks :=
                   map (\<lambda>r. \<lparr>name = task_name r, is_finished = (task_finished r \<noteq> 0)\<rparr>)
                     (select_rows (db st) 0)\<rparr>)
      else st)"

definition get_finished_tasks :: "database \<Rightarrow> Task list" where
  "get_finished_tasks d =
     (if sqlite3_open d \<noteq> SQLITE_OK then []
      else if sqlite3_prepare_v2 d (SelectWhereFinished 1) \<noteq> SQLITE_OK then []
      else map (\<lambda>r. \<lparr>name = task_name r, is_finished = (task_finished r = 1)\<rparr>)
             (select_rows d 1))"

text \<open>
  The checkbox handler of \<^verbatim>\<open>render_task_list\<close>: \<^verbatim>\<open>tasks[i].is_finished = is_checked\<close>, run
  for an index \<open>i < tasks.size()\<close> whose checkbox reported a change.
\<close>

definition toggle_task :: "nat \<Rightarrow> bool \<Rightarrow> app_state \<Rightarrow> app_state" where
  "toggle_task i is_checked st =
     st\<lparr>tasks := (tasks st)[i := (tasks st ! i)\<lparr>is_finished := is_checked\<rparr>]\<rparr>"

text \<open>
  The loop of \<^verbatim>\<open>update_tasks_in_database\<close> over \<^verbatim>\<open>tasks\<close>: one \<^verbatim>\<open>UPDATE\<close> per task, and a
  \<^verbatim>\<open>return\<close> at the first statement that fails to prepare or to step.
\<close>

fun update_loop :: "Task list \<Rightarrow> database \<Rightarrow> database" where
  "update_loop [] d = d"
| "update_loop (t # ts) d =
     (let s = UpdateFinished (if is_finished t then 1 else 0) (name t)
      in if sqlite3_prepare_v2 d s \<noteq> SQLITE_OK then d
         else (case sqlite3_step d s of
                 (result, d') \<Rightarrow> if result \<noteq> SQLITE_DONE then d' else update_loop ts d'))"

definition update_tasks_in_database :: "app_state \<Rightarrow> app_state" where
  "update_tasks_in_database st =
     (if sqlite3_open (db st) = SQLITE_OK then st\<lparr>db := update_loop (tasks st) (db st)\<rparr>
      else st)"

definition clear_finished_tasks :: "app_state \<Rightarrow> app_state" where
  "clear_finished_tasks st =
     (if sqlite3_open (db st) \<noteq> SQLITE_OK then st
      else if sqlite3_prepare_v2 (db st) DeleteFinished \<noteq> SQLITE_OK then st
      else st\<lparr>db := snd (sqlite3_step (db st) DeleteFinished)\<rparr>)"

text \<open>The handler of the clear button in \<^verbatim>\<open>main\<close>.\<close>

definition clear_finished :: "app_state \<Rightarrow> app_state" where
  "clear_finished st = clear_finished_tasks (st\<lparr>finished_tasks := []\<rparr>)"

text \<open>
  The erase loop of \<^verbatim>\<open>delete_tasks\<close> in \<^verbatim>\<open>src/main.cpp\<close>:
  \<^verbatim>\<open>for (int i = 0; i < tasks.size(); i++) if (tasks[i].is_finished == true) tasks.erase(tasks.begin() + i);\<close>
  The index is a natural number: a vector of \<open>2^31\<close> tasks is out of reach.
\<close>

function erase_index_loop :: "nat \<Rightarrow> 'a Task_scheme list \<Rightarrow> 'a Task_scheme list" where
  "erase_index_loop i ts =
     (if i < length ts then
        (if is_finished (ts ! i) then erase_index_loop (i + 1) (take i ts @ drop (i + 1) ts)
         else erase_index_loop (i + 1) ts)
      else ts)"
  by pat_completeness auto
termination
  by (relation "measure (\<lambda>(i, ts). length ts - i)") auto

declare erase_index_loop.simps [simp del]

definition delete_tasks :: "app_state \<Rightarrow> app_state" where
  "delete_tasks st =
     (let st1 = update_tasks_in_database st;
          st2 = st1\<lparr>tasks := erase_index_loop 0 (tasks st1)\<rparr>
      in st2\<lparr>finished_tasks := get_finished_tasks (db st2)\<rparr>)"

section \<open>\<^verbatim>\<open>delete_tasks\<close> of the GLFW variants in \<^verbatim>\<open>build/build.sh\<close>\<close>

text \<open>
  \<^verbatim>\<open>auto it = tasks.begin(); while (it != tasks.end()) { if (it->is_finished) it = tasks.erase(it); else ++it; }\<close>
  with the iterator as its position \<open>i\<close>.
\<close>

function erase_iterator_loop :: "nat \<Rightarrow> 'a Task_scheme list \<Rightarrow> 'a Task_scheme list" where
  "erase_iterator_loop i ts =
     (if i < length ts then
        (if is_finished (ts ! i) then erase_iterator_loop i (take i ts @ drop (i + 1) ts)
         else erase_iterator_loop (i + 1) ts)
      else ts)"
  by pat_completeness auto
termination
  by (relation "measure (\<lambda>(i, ts). length ts - i)") auto

declare erase_iterator_loop.simps [simp del]

definition delete_tasks_glfw :: "app_state \<Rightarrow> app_state" where
  "delete_tasks_glfw st =
     (let st1 = update_tasks_in_database st;
          st2 = st1\<lparr>tasks := erase_iterator_loop 0 (tasks st1)\<rparr>
      in st2\<lparr>finished_tasks := get_finished_tasks (db st2)\<rparr>)"

section \<open>The frame loop of \<^verbatim>\<open>main\<close>\<close>

text \<open>
  Before the loop \<^verbatim>\<open>main\<close> loads both vectors; each frame then creates the table if it is
  missing and runs the handler of whatever the user did.
\<close>

datatype event =
    Frame
  | Toggle nat bool
  | Delete
  | Add string
  | Clear

definition startup :: "database \<Rightarrow> app_state" where
  "startup d =
     (let st = load_tasks_from_database \<lparr>tasks = [], finished_tasks = [], db = d\<rparr>
      in st\<lparr>finished_tasks := get_finished_tasks (db st)\<rparr>)"

fun handle :: "sql_engine \<Rightarrow> event \<Rightarrow> app_state \<Rightarrow> app_state" where
  "handle eng Frame st = create_database_and_table st"
| "handle eng (Toggle i b) st = (if i < length (tasks st) then toggle_task i b st else st)"
| "handle eng Delete st = delete_tasks st"
| "handle eng (Add task) st = add_task eng task st"
| "handle eng Clear st = clear_finished st"

fun run :: "sql_engine \<Rightarrow> event list \<Rightarrow> app_state \<Rightarrow> app_state" where
  "run eng [] st = st"
| "run eng (e # es) st = run eng es (handle eng e st)"

section \<open>Observations used in the statements\<close>

text \<open>The rows of table \<^verbatim>\<open>tasks\<close>; none while the table does not exist.\<close>

definition stored_rows :: "database \<Rightarrow> row list" where
  "stored_rows d = (case tasks_table d of None \<Rightarrow> [] | Some rows \<Rightarrow> rows)"

text \<open>An engine that rejects every text outside the modelled fragment, for concrete runs.\<close>

definition no_engine :: sql_engine where
  "no_engine sql d = (SQLITE_ERROR, d)"

text \<open>A database file that opens, can be written and holds the given rows.\<close>

definition working_db :: "row list \<Rightarrow> database" where
  "working_db rows = \<lparr>open_ok = True, write_ok = True, tasks_table = Some rows\<rparr>"

text \<open>A database file that holds the given rows and cannot be opened.\<close>

definition unopenable_db :: "row list \<Rightarrow> database" where
  "unopenable_db rows = \<lparr>open_ok = False, write_ok = True, tasks_table = Some rows\<rparr>"

section \<open>Facts about the loops\<close>

lemma subseq_erase_at: "subseq (take i ts @ drop (i + 1) ts) ts"
proof -
  have "subseq (drop (i + 1) ts) (drop i ts)"
    by (metis Suc_eq_plus1 drop_drop plus_1_eq_Suc suffix_drop suffix_imp_subseq)
  then have "subseq (take i ts @ drop (i + 1) ts) (take i ts @ drop i ts)"
    by (intro list_emb_append_mono subseq_order.order_refl)
  then show ?thesis by simp
qed

lemma subseq_erase_index_loop: "subseq (erase_index_loop i ts) ts"
proof (induction i ts rule: erase_index_loop.induct)
  case (1 i ts)
  show ?case
  proof (cases "i < length ts")
    case False
    then show ?thesis by (simp add: erase_index_loop.simps)
  next
    case inb: True
    show ?thesis
    proof (cases "is_finished (ts ! i)")
      case True
      with inb 1 have "subseq (erase_index_loop (i + 1) (take i ts @ drop (i + 1) ts))
          (take i ts @ drop (i + 1) ts)"
        by simp
      then have "subseq (erase_index_loop (i + 1) (take i ts @ drop (i + 1) ts)) ts"
        using subseq_erase_at subseq_order.order_trans by blast
      with inb True show ?thesis by (subst erase_index_loop.simps) simp
    next
      case False
      with inb 1 have "subseq (erase_index_loop (i + 1) ts) ts" by simp
      with inb False show ?thesis by (subst erase_index_loop.simps) simp
    qed
  qed
qed

text \<open>The iterator loop removes exactly the finished tasks from its position onwards.\<close>

lemma erase_iterator_loop_filter:
  "erase_iterator_loop i ts = take i ts @ filter (\<lambda>t. \<not> is_finished t) (drop i ts)"
proof (induction i ts rule: erase_iterator_loop.induct)
  case (1 i ts)
  show ?case
  proof (cases "i < length ts")
    case False
    then show ?thesis by (simp add: erase_iterator_loop.simps)
  next
    case inb: True
    then have split: "drop i ts = ts ! i # drop (i + 1) ts"
      by (simp add: Cons_nth_drop_Suc)
    show ?thesis
    proof (cases "is_finished (ts ! i)")
      case True
      with inb 1 have "erase_iterator_loop i (take i ts @ drop (i + 1) ts)
          = take i (take i ts @ drop (i + 1) ts)
            @ filter (\<lambda>t. \<not> is_finished t) (drop i (take i ts @ drop (i + 1) ts))"
        by simp
      also have "\<dots> = take i ts @ filter (\<lambda>t. \<not> is_finished t) (drop (i + 1) ts)"
        using inb by simp
      finally show ?thesis
        using inb True split by (subst erase_iterator_loop.simps) simp
    next
      case False
      with inb 1 have "erase_iterator_loop (i + 1) ts
          = take (i + 1) ts @ filter (\<lambda>t. \<not> is_finished t) (drop (i + 1) ts)"
        by simp
      then show ?thesis
        using inb False split
        by (subst erase_iterator_loop.simps) (simp add: take_Suc_conv_app_nth)
    qed
  qed
qed

lemma tasks_update_tasks_in_database [simp]:
  "tasks (update_tasks_in_database st) = tasks st"
  by (simp add: update_tasks_in_database_def)

lemma finished_tasks_update_tasks_in_database [simp]:
  "finished_tasks (update_tasks_in_database st) = finished_tasks st"
  by (simp add: update_tasks_in_database_def)

section \<open>Facts about the SQLite statements\<close>

lemma sqlite3_step_flags:
  "open_ok (snd (sqlite3_step d s)) = open_ok d \<and> write_ok (snd (sqlite3_step d s)) = write_ok d"
  by (simp add: sqlite3_step_def split: statement.splits option.splits)

lemma update_loop_flags:
  "open_ok (update_loop ts d) = open_ok d \<and> write_ok (update_loop ts d) = write_ok d"
proof (induction ts arbitrary: d)
  case Nil
  show ?case by simp
next
  case (Cons t ts)
  show ?case
    using Cons.IH [of "snd (sqlite3_step d (UpdateFinished (if is_finished t then 1 else 0) (name t)))"]
          sqlite3_step_flags [of d "UpdateFinished (if is_finished t then 1 else 0) (name t)"]
    by (auto simp: Let_def split: prod.splits)
qed

lemma open_ok_update_tasks_in_database [simp]:
  "open_ok (db (update_tasks_in_database st)) = open_ok (db st)"
  by (simp add: update_tasks_in_database_def update_loop_flags)

lemma get_finished_tasks_rows:
  "get_finished_tasks d =
     (if open_ok d
      then map (\<lambda>r. \<lparr>name = task_name r, is_finished = True\<rparr>)
             (filter (\<lambda>r. task_finished r = 1) (stored_rows d))
      else [])"
  by (auto simp: get_finished_tasks_def sqlite3_open_def sqlite3_prepare_v2_def select_rows_def
        stored_rows_def split: option.splits)

lemma sql_string_body_plain: "CHR 0x27 \<notin> set s \<Longrightarrow> sql_string_body s = Some s"
  by (induction s) auto

lemma parse_insert_built: "parse_insert (insert_head @ task @ insert_tail) = sql_string_body task"
  by (simp add: parse_insert_def)

lemma built_not_commit: "insert_head @ task @ insert_tail \<noteq> ''COMMIT;''"
  by (simp add: insert_head_def)

lemma sqlite3_exec_commit [simp]: "sqlite3_exec eng d ''COMMIT;'' = (SQLITE_ERROR, d)"
  by (simp add: sqlite3_exec_def)

lemma sqlite3_exec_insert:
  "sql_string_body task = Some n \<Longrightarrow>
   sqlite3_exec eng d (insert_head @ task @ insert_tail) =
     (case tasks_table d of
        None \<Rightarrow> (SQLITE_ERROR, d)
      | Some rows \<Rightarrow>
          if write_ok d
          then (SQLITE_OK, d\<lparr>tasks_table := Some (rows @ [\<lparr>task_name = n, task_finished = 0\<rparr>])\<rparr>)
          else (SQLITE_READONLY, d))"
  by (simp add: sqlite3_exec_def parse_insert_built built_not_commit)

lemma update_loop_working:
  "write_ok d \<Longrightarrow> tasks_table d = Some rows \<Longrightarrow>
   update_loop ts d =
     d\<lparr>tasks_table :=
         Some (foldl (\<lambda>rs t. set_finished_where (if is_finished t then 1 else 0) (name t) rs)
                 rows ts)\<rparr>"
proof (induction ts arbitrary: d rows)
  case Nil
  then show ?case by simp
next
  case (Cons t ts)
  let ?d' = "d\<lparr>tasks_table :=
      Some (set_finished_where (if is_finished t then 1 else 0) (name t) rows)\<rparr>"
  have step: "sqlite3_step d (UpdateFinished (if is_finished t then 1 else 0) (name t))
      = (SQLITE_DONE, ?d')"
    using Cons.prems by (simp add: sqlite3_step_def)
  have prep: "sqlite3_prepare_v2 d (UpdateFinished (if is_finished t then 1 else 0) (name t))
      = SQLITE_OK"
    using Cons.prems by (simp add: sqlite3_prepare_v2_def)
  have "update_loop (t # ts) d = update_loop ts ?d'"
    using step prep by (simp add: Let_def)
  also have "\<dots> = ?d'\<lparr>tasks_table :=
         Some (foldl (\<lambda>rs t. set_finished_where (if is_finished t then 1 else 0) (name t) rs)
                 (set_finished_where (if is_finished t then 1 else 0) (name t) rows) ts)\<rparr>"
    using Cons.prems by (intro Cons.IH) simp_all
  finally show ?case by simp
qed

lemma set_finished_where_props:
  "length (set_finished_where v n rows) = length rows
   \<and> (\<forall>j < length rows.
        task_name (set_finished_where v n rows ! j) = task_name (rows ! j)
        \<and> task_finished (set_finished_where v n rows ! j)
            = (if task_name (rows ! j) = n then v else task_finished (rows ! j)))
   \<and> (n \<notin> task_name ` set rows \<longrightarrow> set_finished_where v n rows = rows)"
proof -
  have "n \<notin> task_name ` set rows \<Longrightarrow> set_finished_where v n rows = rows"
    unfolding set_finished_where_def by (intro map_idI) auto
  then show ?thesis by (auto simp: set_finished_where_def)
qed

text \<open>After the whole loop each row has the flag of the last task with its name.\<close>

lemma update_fold_rows:
  "length (foldl (\<lambda>rs t. set_finished_where (if is_finished t then 1 else 0) (name t) rs) rows ts)
     = length rows
   \<and> (\<forall>j < length rows.
        task_name (foldl (\<lambda>rs t. set_finished_where (if is_finished t then 1 else 0) (name t) rs)
                     rows ts ! j) = task_name (rows ! j)
        \<and> task_finished (foldl (\<lambda>rs t. set_finished_where (if is_finished t then 1 else 0) (name t) rs)
                     rows ts ! j)
            = (case find (\<lambda>t. name t = task_name (rows ! j)) (rev ts) of
                 None \<Rightarrow> task_finished (rows ! j)
               | Some t \<Rightarrow> if is_finished t then 1 else 0))"
proof (induction ts rule: rev_induct)
  case Nil
  show ?case by simp
next
  case (snoc t ts)
  let ?F = "foldl (\<lambda>rs t. set_finished_where (if is_finished t then 1 else 0) (name t) rs) rows ts"
  have step: "foldl (\<lambda>rs t. set_finished_where (if is_finished t then 1 else 0) (name t) rs)
      rows (ts @ [t]) = set_finished_where (if is_finished t then 1 else 0) (name t) ?F"
    by simp
  show ?case
    unfolding step
    using snoc.IH set_finished_where_props [of "if is_finished t then 1 else 0" "name t" ?F]
    by (auto split: option.splits)
qed

lemma update_loop_keeps_row:
  "tasks_table d = Some rows \<Longrightarrow> i < length rows \<Longrightarrow> task_finished (rows ! i) = 1 \<Longrightarrow>
   (\<forall>t \<in> set ts. name t = task_name (rows ! i) \<longrightarrow> is_finished t) \<Longrightarrow>
   \<exists>rows'. tasks_table (update_loop ts d) = Some rows' \<and> length rows' = length rows
      \<and> rows' ! i = rows ! i"
proof (induction ts arbitrary: d rows)
  case Nil
  then show ?case by simp
next
  case (Cons t ts)
  let ?v = "if is_finished t then 1 else 0 :: int"
  let ?rows' = "set_finished_where ?v (name t) rows"
  show ?case
  proof (cases "write_ok d")
    case False
    with Cons.prems show ?thesis
      by (simp add: Let_def sqlite3_prepare_v2_def sqlite3_step_def)
  next
    case True
    have same: "?rows' ! i = rows ! i"
      using Cons.prems by (auto simp: set_finished_where_def)
    have len: "length ?rows' = length rows"
      by (simp add: set_finished_where_def)
    have "\<exists>rows''. tasks_table (update_loop ts (d\<lparr>tasks_table := Some ?rows'\<rparr>)) = Some rows''
        \<and> length rows'' = length ?rows' \<and> rows'' ! i = ?rows' ! i"
      using Cons.prems same len by (intro Cons.IH) simp_all
    moreover have "update_loop (t # ts) d = update_loop ts (d\<lparr>tasks_table := Some ?rows'\<rparr>)"
      using True Cons.prems by (simp add: Let_def sqlite3_prepare_v2_def sqlite3_step_def)
    ultimately show ?thesis using same len by simp
  qed
qed

lemma tasks_handle_only_tasks:
  "tasks (handle eng ev st) = tasks (handle eng' ev (st\<lparr>finished_tasks := f, db := d\<rparr>))"
proof (cases ev)
  case Frame
  then show ?thesis
    by (simp add: create_database_and_table_def)
next
  case (Toggle i b)
  then show ?thesis by (simp add: toggle_task_def)
next
  case Delete
  then show ?thesis by (simp add: delete_tasks_def Let_def)
next
  case (Add task)
  then show ?thesis by (simp add: add_task_def Let_def)
next
  case Clear
  then show ?thesis by (simp add: clear_finished_def clear_finished_tasks_def)
qed

lemma finished_tasks_handle:
  "ev \<noteq> Delete \<Longrightarrow> ev \<noteq> Clear \<Longrightarrow> finished_tasks (handle eng ev st) = finished_tasks st"
  by (cases ev) (simp_all add: create_database_and_table_def toggle_task_def add_task_def Let_def)

lemma handle_keeps_finished_row:
  assumes tbl: "tasks_table (db st) = Some rows"
    and i: "i < length rows"
    and fin: "task_finished (rows ! i) = 1"
    and ev: "ev \<noteq> Clear"
    and namesakes: "\<forall>t \<in> set (tasks st). name t = task_name (rows ! i) \<longrightarrow> is_finished t"
    and plain: "\<forall>task. ev = Add task \<longrightarrow> CHR 0x27 \<notin> set task"
  shows "\<exists>rows'. tasks_table (db (handle eng ev st)) = Some rows' \<and> i < length rows'
           \<and> rows' ! i = rows ! i"
proof (cases ev)
  case Frame
  with tbl i show ?thesis
    by (simp add: create_database_and_table_def sqlite3_step_def)
next
  case (Toggle j b)
  with tbl i show ?thesis by (simp add: toggle_task_def)
next
  case Delete
  show ?thesis
  proof (cases "open_ok (db st)")
    case False
    with Delete tbl i show ?thesis
      by (simp add: delete_tasks_def Let_def update_tasks_in_database_def sqlite3_open_def)
  next
    case True
    obtain rows' where "tasks_table (update_loop (tasks st) (db st)) = Some rows'"
      "length rows' = length rows" "rows' ! i = rows ! i"
      using update_loop_keeps_row [OF tbl i fin namesakes] by blast
    with Delete True i show ?thesis
      by (simp add: delete_tasks_def Let_def update_tasks_in_database_def sqlite3_open_def)
  qed
next
  case (Add task)
  with plain have "sql_string_body task = Some task"
    by (simp add: sql_string_body_plain)
  with Add tbl i show ?thesis
    by (auto simp: add_task_def Let_def sqlite3_open_def sqlite3_exec_insert nth_append)
next
  case Clear
  with ev show ?thesis by simp
qed

lemma delete_tasks_keeps_finished_member:
  assumes tbl: "tasks_table (db st) = Some rows"
    and i: "i < length rows"
    and fin: "task_finished (rows ! i) = 1"
    and namesakes: "\<forall>t \<in> set (tasks st). name t = task_name (rows ! i) \<longrightarrow> is_finished t"
    and opn: "open_ok (db st)"
  shows "\<lparr>name = task_name (rows ! i), is_finished = True\<rparr> \<in> set (finished_tasks (delete_tasks st))"
proof -
  obtain rows' where r: "tasks_table (update_loop (tasks st) (db st)) = Some rows'"
      "length rows' = length rows" "rows' ! i = rows ! i"
    using update_loop_keeps_row [OF tbl i fin namesakes] by blast
  have "rows' ! i \<in> set rows'"
    using r i by (intro nth_mem) simp
  then have "rows' ! i \<in> set (filter (\<lambda>r. task_finished r = 1) rows')"
    using r fin by simp
  then have "\<lparr>name = task_name (rows' ! i), is_finished = True\<rparr>
      \<in> set (map (\<lambda>r. \<lparr>name = task_name r, is_finished = True\<rparr>)
               (filter (\<lambda>r. task_finished r = 1) rows'))"
    unfolding set_map by (rule imageI)
  with r opn show ?thesis
    by (simp add: delete_tasks_def Let_def get_finished_tasks_rows stored_rows_def
          update_tasks_in_database_def sqlite3_open_def update_loop_flags)
qed

lemma update_loop_failing:
  "\<not> write_ok d \<or> tasks_table d = None \<Longrightarrow> update_loop ts d = d"
  by (cases ts) (auto simp: Let_def sqlite3_prepare_v2_def sqlite3_step_def split: option.splits)

lemma names_after_handle:
  assumes "n \<in> name ` set (tasks (handle eng ev st))"
  shows "n \<in> name ` set (tasks st) \<or> ev = Add n"
proof (cases ev)
  case Frame
  with assms show ?thesis by (simp add: create_database_and_table_def split: if_splits)
next
  case (Toggle i b)
  show ?thesis
  proof (cases "i < length (tasks st)")
    case False
    with Toggle assms show ?thesis by simp
  next
    case True
    from assms Toggle True obtain t where
      t: "t \<in> set ((tasks st)[i := (tasks st ! i)\<lparr>is_finished := b\<rparr>])" and n: "n = name t"
      by (auto simp: toggle_task_def)
    from t have "t = (tasks st ! i)\<lparr>is_finished := b\<rparr> \<or> t \<in> set (tasks st)"
      using set_update_subset_insert by fastforce
    with n True show ?thesis by (auto intro: nth_mem)
  qed
next
  case Delete
  have "set (tasks (delete_tasks st)) \<subseteq> set (tasks st)"
    using subseq_erase_index_loop [of 0 "tasks st"]
    by (auto simp: delete_tasks_def Let_def dest: list_emb_set)
  with Delete assms show ?thesis by auto
next
  case (Add task)
  with assms show ?thesis by (auto simp: add_task_def Let_def split: if_splits)
next
  case Clear
  with assms show ?thesis
    by (simp add: clear_finished_def clear_finished_tasks_def split: if_splits)
qed

text \<open>Along a run of the frame loop without the clear button.\<close>

lemma run_keeps_finished_row:
  assumes "tasks_table (db st) = Some rows" and "i < length rows"
    and "task_finished (rows ! i) = 1"
    and "task_name (rows ! i) \<notin> name ` set (tasks st)"
    and "\<forall>ev \<in> set evs. ev \<noteq> Clear \<and> ev \<noteq> Add (task_name (rows ! i))
           \<and> (\<forall>task. ev = Add task \<longrightarrow> CHR 0x27 \<notin> set task)"
  shows "\<exists>rows'. tasks_table (db (run eng evs st)) = Some rows' \<and> i < length rows'
           \<and> rows' ! i = rows ! i"
  using assms
proof (induction evs arbitrary: st rows)
  case Nil
  then show ?case by simp
next
  case (Cons ev evs)
  have no_namesake: "\<forall>t \<in> set (tasks st). name t = task_name (rows ! i) \<longrightarrow> is_finished t"
    using Cons.prems(4) by force
  have "\<exists>rows'. tasks_table (db (handle eng ev st)) = Some rows' \<and> i < length rows'
           \<and> rows' ! i = rows ! i"
    using Cons.prems no_namesake by (intro handle_keeps_finished_row) simp_all
  then obtain rows' where r: "tasks_table (db (handle eng ev st)) = Some rows'"
    "i < length rows'" "rows' ! i = rows ! i"
    by blast
  have "task_name (rows' ! i) \<notin> name ` set (tasks (handle eng ev st))"
    using names_after_handle [of "task_name (rows ! i)" eng ev st] Cons.prems r by auto
  then have "\<exists>rows''. tasks_table (db (run eng evs (handle eng ev st))) = Some rows''
      \<and> i < length rows'' \<and> rows'' ! i = rows' ! i"
    using r Cons.prems by (intro Cons.IH) auto
  with r show ?case by simp
qed

lemma add_then_load_plain_name:
  assumes ok: "add_task_result eng task st = Some SQLITE_OK"
    and plain: "CHR 0x27 \<notin> set task"
  shows "\<lparr>name = task, is_finished = False\<rparr>
     \<in> set (tasks (load_tasks_from_database (add_task eng task st)))"
proof -
  have body: "sql_string_body task = Some task"
    using plain by (rule sql_string_body_plain)
  from ok have ne: "task \<noteq> []" and opn: "open_ok (db st)"
    by (auto simp: add_task_result_def sqlite3_open_def split: if_splits)
  from ok ne opn have res: "fst (sqlite3_exec eng (db st) (insert_head @ task @ insert_tail)) = SQLITE_OK"
    by (simp add: add_task_result_def sqlite3_open_def)
  then obtain rows where rows: "tasks_table (db st) = Some rows" and w: "write_ok (db st)"
    by (auto simp: sqlite3_exec_insert [OF body] split: option.splits if_splits)
  have "tasks_table (db (add_task eng task st))
      = Some (rows @ [\<lparr>task_name = task, task_finished = 0\<rparr>])"
    using ne opn rows w
    by (simp add: add_task_def Let_def sqlite3_open_def sqlite3_exec_insert [OF body])
  moreover have "open_ok (db (add_task eng task st))"
    using ne opn rows w
    by (simp add: add_task_def Let_def sqlite3_open_def sqlite3_exec_insert [OF body])
  ultimately show ?thesis
    by (simp add: load_tasks_from_database_def sqlite3_open_def sqlite3_prepare_v2_def
          select_rows_def)
qed

section \<open>The scenario of the specification\<close>

text \<open>
  The store holds \<^verbatim>\<open>("Buy milk", 0)\<close> and \<^verbatim>\<open>("Pay bill", 1)\<close>; the user adds
  \<^verbatim>\<open>Call mom\<close>, checks \<^verbatim>\<open>Buy milk\<close>, deletes the selected tasks and clears the finished
  list.
\<close>

lemma spec_scenario:
  "tasks (startup (working_db [\<lparr>task_name = ''Buy milk'', task_finished = 0\<rparr>,
                                \<lparr>task_name = ''Pay bill'', task_finished = 1\<rparr>]))
     = [\<lparr>name = ''Buy milk'', is_finished = False\<rparr>]
   \<and> finished_tasks (startup (working_db [\<lparr>task_name = ''Buy milk'', task_finished = 0\<rparr>,
                                           \<lparr>task_name = ''Pay bill'', task_finished = 1\<rparr>]))
     = [\<lparr>name = ''Pay bill'', is_finished = True\<rparr>]
   \<and> tasks (run no_engine [Frame, Add ''Call mom'']
        (startup (working_db [\<lparr>task_name = ''Buy milk'', task_finished = 0\<rparr>,
                              \<lparr>task_name = ''Pay bill'', task_finished = 1\<rparr>])))
     = [\<lparr>name = ''Buy milk'', is_finished = False\<rparr>, \<lparr>name = ''Call mom'', is_finished = False\<rparr>]
   \<and> tasks (run no_engine [Frame, Add ''Call mom'', Toggle 0 True, Delete]
        (startup (working_db [\<lparr>task_name = ''Buy milk'', task_finished = 0\<rparr>,
                              \<lparr>task_name = ''Pay bill'', task_finished = 1\<rparr>])))
     = [\<lparr>name = ''Call mom'', is_finished = False\<rparr>]
   \<and> finished_tasks (run no_engine [Frame, Add ''Call mom'', Toggle 0 True, Delete]
        (startup (working_db [\<lparr>task_name = ''Buy milk'', task_finished = 0\<rparr>,
                              \<lparr>task_name = ''Pay bill'', task_finished = 1\<rparr>])))
     = [\<lparr>name = ''Buy milk'', is_finished = True\<rparr>, \<lparr>name = ''Pay bill'', is_finished = True\<rparr>]
   \<and> finished_tasks (run no_engine [Frame, Add ''Call mom'', Toggle 0 True, Delete, Clear]
        (startup (working_db [\<lparr>task_name = ''Buy milk'', task_finished = 0\<rparr>,
                              \<lparr>task_name = ''Pay bill'', task_finished = 1\<rparr>]))) = []
   \<and> stored_rows (db (run no_engine [Frame, Add ''Call mom'', Toggle 0 True, Delete, Clear]
        (startup (working_db [\<lparr>task_name = ''Buy milk'', task_finished = 0\<rparr>,
                              \<lparr>task_name = ''Pay bill'', task_finished = 1\<rparr>]))))
     = [\<lparr>task_name = ''Call mom'', task_finished = 0\<rparr>]"
  using sqlite3_exec_insert [of "''Call mom''" "''Call mom''" no_engine
      "working_db [\<lparr>task_name = ''Buy milk'', task_finished = 0\<rparr>,
                   \<lparr>task_name = ''Pay bill'', task_finished = 1\<rparr>]"]
  by (simp add: startup_def load_tasks_from_database_def get_finished_tasks_def
        sqlite3_open_def sqlite3_prepare_v2_def select_rows_def working_db_def Let_def
        add_task_def delete_tasks_def update_tasks_in_database_def sqlite3_step_def
        set_finished_where_def erase_index_loop.simps stored_rows_def toggle_task_def
        create_database_and_table_def clear_finished_def clear_finished_tasks_def)

section \<open>\<^verbatim>\<open>delete_tasks\<close>: what is left in the two collections\<close>

text \<open>
  As stated, the claim fails in two ways. In \<^verbatim>\<open>src/main.cpp\<close> the index loop steps over the
  element that moved into the erased position: of two checked tasks in a row the second
  stays in the active collection. And \<^verbatim>\<open>get_finished_tasks\<close> returns the empty vector when
  the store cannot be opened, whatever rows are stored as finished.
\<close>

theorem delete_tasks_counterexample:
  "tasks (delete_tasks
      \<lparr>tasks = [\<lparr>name = ''A'', is_finished = True\<rparr>, \<lparr>name = ''B'', is_finished = True\<rparr>],
       finished_tasks = [],
       db = working_db [\<lparr>task_name = ''A'', task_finished = 0\<rparr>,
                        \<lparr>task_name = ''B'', task_finished = 0\<rparr>]\<rparr>)
     = [\<lparr>name = ''B'', is_finished = True\<rparr>]
   \<and> finished_tasks (delete_tasks
      \<lparr>tasks = [], finished_tasks = [],
       db = unopenable_db [\<lparr>task_name = ''C'', task_finished = 1\<rparr>]\<rparr>) = []
   \<and> stored_rows (db (delete_tasks
      \<lparr>tasks = [], finished_tasks = [],
       db = unopenable_db [\<lparr>task_name = ''C'', task_finished = 1\<rparr>]\<rparr>))
     = [\<lparr>task_name = ''C'', task_finished = 1\<rparr>]"
  by (simp add: delete_tasks_def update_tasks_in_database_def sqlite3_open_def
        working_db_def unopenable_db_def erase_index_loop.simps get_finished_tasks_def
        stored_rows_def sqlite3_prepare_v2_def sqlite3_step_def set_finished_where_def Let_def)

text \<open>
  C1, as amended. After \<^verbatim>\<open>delete_tasks\<close> returns, the finished collection holds exactly the
  stored rows with \<open>task_finished = 1\<close>, in table order, when the store can be opened,
  and is empty when it cannot; this holds for \<^verbatim>\<open>src/main.cpp\<close> and for the variants of
  \<^verbatim>\<open>build/build.sh\<close>. With the iterator loop of \<^verbatim>\<open>build/build.sh\<close> the active collection
  then has no task whose \<open>is_finished\<close> is true.
\<close>

theorem delete_tasks_amended:
  "finished_tasks (delete_tasks st) =
     (if open_ok (db st)
      then map (\<lambda>r. \<lparr>name = task_name r, is_finished = True\<rparr>)
             (filter (\<lambda>r. task_finished r = 1) (stored_rows (db (delete_tasks st))))
      else [])
   \<and> finished_tasks (delete_tasks_glfw st) =
     (if open_ok (db st)
      then map (\<lambda>r. \<lparr>name = task_name r, is_finished = True\<rparr>)
             (filter (\<lambda>r. task_finished r = 1) (stored_rows (db (delete_tasks_glfw st))))
      else [])
   \<and> (\<forall>t \<in> set (tasks (delete_tasks_glfw st)). \<not> is_finished t)"
  by (simp add: delete_tasks_def delete_tasks_glfw_def Let_def get_finished_tasks_rows
        erase_iterator_loop_filter)

theorem delete_tasks_amended_witness:
  "tasks (delete_tasks_glfw
      \<lparr>tasks = [\<lparr>name = ''Buy milk'', is_finished = True\<rparr>,
                \<lparr>name = ''Call mom'', is_finished = False\<rparr>],
       finished_tasks = [],
       db = working_db [\<lparr>task_name = ''Buy milk'', task_finished = 0\<rparr>,
                        \<lparr>task_name = ''Pay bill'', task_finished = 1\<rparr>,
                        \<lparr>task_name = ''Call mom'', task_finished = 0\<rparr>]\<rparr>)
     = [\<lparr>name = ''Call mom'', is_finished = False\<rparr>]
   \<and> finished_tasks (delete_tasks_glfw
      \<lparr>tasks = [\<lparr>name = ''Buy milk'', is_finished = True\<rparr>,
                \<lparr>name = ''Call mom'', is_finished = False\<rparr>],
       finished_tasks = [],
       db = working_db [\<lparr>task_name = ''Buy milk'', task_finished = 0\<rparr>,
                        \<lparr>task_name = ''Pay bill'', task_finished = 1\<rparr>,
                        \<lparr>task_name = ''Call mom'', task_finished = 0\<rparr>]\<rparr>)
     = [\<lparr>name = ''Buy milk'', is_finished = True\<rparr>, \<lparr>name = ''Pay bill'', is_finished = True\<rparr>]
   \<and> finished_tasks (delete_tasks
      \<lparr>tasks = [\<lparr>name = ''Buy milk'', is_finished = True\<rparr>,
                \<lparr>name = ''Call mom'', is_finished = False\<rparr>],
       finished_tasks = [],
       db = working_db [\<lparr>task_name = ''Buy milk'', task_finished = 0\<rparr>,
                        \<lparr>task_name = ''Pay bill'', task_finished = 1\<rparr>,
                        \<lparr>task_name = ''Call mom'', task_finished = 0\<rparr>]\<rparr>)
     = [\<lparr>name = ''Buy milk'', is_finished = True\<rparr>, \<lparr>name = ''Pay bill'', is_finished = True\<rparr>]"
  using delete_tasks_amended
    [of "\<lparr>tasks = [\<lparr>name = ''Buy milk'', is_finished = True\<rparr>,
                    \<lparr>name = ''Call mom'', is_finished = False\<rparr>],
          finished_tasks = [],
          db = working_db [\<lparr>task_name = ''Buy milk'', task_finished = 0\<rparr>,
                           \<lparr>task_name = ''Pay bill'', task_finished = 1\<rparr>,
                           \<lparr>task_name = ''Call mom'', task_finished = 0\<rparr>]\<rparr>"]
  by (simp add: delete_tasks_def delete_tasks_glfw_def update_tasks_in_database_def
        sqlite3_open_def working_db_def erase_iterator_loop.simps erase_index_loop.simps
        get_finished_tasks_def select_rows_def
        stored_rows_def sqlite3_prepare_v2_def sqlite3_step_def set_finished_where_def Let_def)

section \<open>\<^verbatim>\<open>add_task\<close> with a name that is not empty\<close>

text \<open>
  As stated, the claim fails when the store cannot be opened: the task is appended in
  memory and no row is stored.
\<close>

theorem add_task_counterexample:
  "tasks (add_task no_engine ''X''
      \<lparr>tasks = [], finished_tasks = [], db = unopenable_db []\<rparr>)
     = [\<lparr>name = ''X'', is_finished = False\<rparr>]
   \<and> stored_rows (db (add_task no_engine ''X''
      \<lparr>tasks = [], finished_tasks = [], db = unopenable_db []\<rparr>)) = []"
  by (simp add: add_task_def sqlite3_open_def unopenable_db_def stored_rows_def Let_def)

text \<open>
  C2, as amended. For every task name that is not empty, \<^verbatim>\<open>add_task\<close> appends exactly one
  task to the active collection, with that name and \<open>is_finished = false\<close>, and leaves
  the finished collection alone. If the store cannot be opened, storage is unchanged. For
  a name without a quote character: if the store can be opened and written and table
  \<^verbatim>\<open>tasks\<close> exists, exactly one row is appended to the table, that name with
  \<open>task_finished = 0\<close>; if the store cannot be written or the table does not exist,
  storage is unchanged.
\<close>

theorem add_task_amended:
  "task \<noteq> [] \<Longrightarrow>
     tasks (add_task eng task st) = tasks st @ [\<lparr>name = task, is_finished = False\<rparr>]
   \<and> length (tasks (add_task eng task st)) = length (tasks st) + 1
   \<and> finished_tasks (add_task eng task st) = finished_tasks st
   \<and> (\<not> open_ok (db st) \<longrightarrow> db (add_task eng task st) = db st)
   \<and> (open_ok (db st) \<and> write_ok (db st) \<and> tasks_table (db st) = Some rows
        \<and> CHR 0x27 \<notin> set task \<longrightarrow>
      tasks_table (db (add_task eng task st))
        = Some (rows @ [\<lparr>task_name = task, task_finished = 0\<rparr>]))
   \<and> ((\<not> write_ok (db st) \<or> tasks_table (db st) = None) \<and> CHR 0x27 \<notin> set task \<longrightarrow>
        db (add_task eng task st) = db st)"
  by (auto simp: add_task_def Let_def sqlite3_open_def sqlite3_exec_insert sql_string_body_plain
        split: option.splits)

theorem add_task_amended_witness:
  "''Call mom'' \<noteq> [] \<and> CHR 0x27 \<notin> set ''Call mom''
   \<and> tasks (add_task no_engine ''Call mom''
       \<lparr>tasks = [\<lparr>name = ''Buy milk'', is_finished = False\<rparr>], finished_tasks = [],
        db = working_db [\<lparr>task_name = ''Buy milk'', task_finished = 0\<rparr>]\<rparr>)
     = [\<lparr>name = ''Buy milk'', is_finished = False\<rparr>,
        \<lparr>name = ''Call mom'', is_finished = False\<rparr>]
   \<and> tasks_table (db (add_task no_engine ''Call mom''
       \<lparr>tasks = [\<lparr>name = ''Buy milk'', is_finished = False\<rparr>], finished_tasks = [],
        db = working_db [\<lparr>task_name = ''Buy milk'', task_finished = 0\<rparr>]\<rparr>))
     = Some [\<lparr>task_name = ''Buy milk'', task_finished = 0\<rparr>,
             \<lparr>task_name = ''Call mom'', task_finished = 0\<rparr>]
   \<and> db (add_task no_engine ''Call mom''
       \<lparr>tasks = [], finished_tasks = [], db = unopenable_db []\<rparr>) = unopenable_db []"
  using add_task_amended
    [of "''Call mom''" no_engine
        "\<lparr>tasks = [\<lparr>name = ''Buy milk'', is_finished = False\<rparr>], finished_tasks = [],
          db = working_db [\<lparr>task_name = ''Buy milk'', task_finished = 0\<rparr>]\<rparr>"
        "[\<lparr>task_name = ''Buy milk'', task_finished = 0\<rparr>]"]
    add_task_amended
    [of "''Call mom''" no_engine
        "\<lparr>tasks = [], finished_tasks = [], db = unopenable_db []\<rparr>" "[]"]
  by (simp add: working_db_def unopenable_db_def)

section \<open>Adding the empty name\<close>

text \<open>
  C3. For the empty task name, \<^verbatim>\<open>add_task\<close> leaves the whole state as it is: the active
  collection gets no task and the stored table gets no row.
\<close>

theorem add_task_empty_name: "add_task eng [] st = st"
  by (simp add: add_task_def)

section \<open>The checkbox handler\<close>

text \<open>
  C4. For every valid index into the active collection, setting the flag to a target
  state twice gives the same state as setting it once, and the flag of that task then is
  the target state.
\<close>

theorem toggle_task_idempotent:
  "i < length (tasks st) \<Longrightarrow>
     toggle_task i b (toggle_task i b st) = toggle_task i b st
     \<and> is_finished (tasks (toggle_task i b (toggle_task i b st)) ! i) = b"
  by (simp add: toggle_task_def)

theorem toggle_task_idempotent_witness:
  "(0::nat) < length (tasks \<lparr>tasks = [\<lparr>name = ''Buy milk'', is_finished = False\<rparr>],
                            finished_tasks = [], db = working_db []\<rparr>)
   \<and> toggle_task 0 True
       (toggle_task 0 True \<lparr>tasks = [\<lparr>name = ''Buy milk'', is_finished = False\<rparr>],
                             finished_tasks = [], db = working_db []\<rparr>)
     = \<lparr>tasks = [\<lparr>name = ''Buy milk'', is_finished = True\<rparr>],
        finished_tasks = [], db = working_db []\<rparr>"
  using toggle_task_idempotent
    [of 0 "\<lparr>tasks = [\<lparr>name = ''Buy milk'', is_finished = False\<rparr>],
            finished_tasks = [], db = working_db []\<rparr>" True]
  by (simp add: toggle_task_def)

section \<open>The clear button\<close>

text \<open>
  As stated, the claim fails when the store cannot be opened: the finished collection is
  emptied in memory and the finished rows stay in storage.
\<close>

theorem clear_finished_counterexample:
  "finished_tasks (clear_finished
      \<lparr>tasks = [], finished_tasks = [\<lparr>name = ''Pay bill'', is_finished = True\<rparr>],
       db = unopenable_db [\<lparr>task_name = ''Pay bill'', task_finished = 1\<rparr>]\<rparr>) = []
   \<and> stored_rows (db (clear_finished
      \<lparr>tasks = [], finished_tasks = [\<lparr>name = ''Pay bill'', is_finished = True\<rparr>],
       db = unopenable_db [\<lparr>task_name = ''Pay bill'', task_finished = 1\<rparr>]\<rparr>))
     = [\<lparr>task_name = ''Pay bill'', task_finished = 1\<rparr>]"
  by (simp add: clear_finished_def clear_finished_tasks_def sqlite3_open_def unopenable_db_def
        stored_rows_def)

text \<open>
  C5, as amended. In every state the clear button empties the in-memory finished
  collection and leaves the active collection and every stored row whose
  \<open>task_finished\<close> is not 1 as they are, in their order. When the store can be opened and
  written, the rows with \<open>task_finished = 1\<close> are removed and nothing else is; when it
  cannot, storage is unchanged.
\<close>

theorem clear_finished_amended:
  "finished_tasks (clear_finished st) = []
   \<and> tasks (clear_finished st) = tasks st
   \<and> filter (\<lambda>r. task_finished r \<noteq> 1) (stored_rows (db (clear_finished st)))
       = filter (\<lambda>r. task_finished r \<noteq> 1) (stored_rows (db st))
   \<and> (open_ok (db st) \<and> write_ok (db st) \<longrightarrow>
        stored_rows (db (clear_finished st))
          = filter (\<lambda>r. task_finished r \<noteq> 1) (stored_rows (db st)))
   \<and> (\<not> (open_ok (db st) \<and> write_ok (db st)) \<longrightarrow> db (clear_finished st) = db st)"
  by (auto simp: clear_finished_def clear_finished_tasks_def sqlite3_open_def
        sqlite3_prepare_v2_def sqlite3_step_def stored_rows_def split: option.splits)

theorem clear_finished_amended_witness:
  "open_ok (working_db [\<lparr>task_name = ''Call mom'', task_finished = 0\<rparr>,
                        \<lparr>task_name = ''Buy milk'', task_finished = 1\<rparr>])
   \<and> write_ok (working_db [\<lparr>task_name = ''Call mom'', task_finished = 0\<rparr>,
                           \<lparr>task_name = ''Buy milk'', task_finished = 1\<rparr>])
   \<and> stored_rows (db (clear_finished
       \<lparr>tasks = [\<lparr>name = ''Call mom'', is_finished = False\<rparr>],
        finished_tasks = [\<lparr>name = ''Buy milk'', is_finished = True\<rparr>],
        db = working_db [\<lparr>task_name = ''Call mom'', task_finished = 0\<rparr>,
                         \<lparr>task_name = ''Buy milk'', task_finished = 1\<rparr>]\<rparr>))
     = [\<lparr>task_name = ''Call mom'', task_finished = 0\<rparr>]
   \<and> \<not> open_ok (unopenable_db [\<lparr>task_name = ''Buy milk'', task_finished = 1\<rparr>])
   \<and> db (clear_finished
       \<lparr>tasks = [], finished_tasks = [\<lparr>name = ''Buy milk'', is_finished = True\<rparr>],
        db = unopenable_db [\<lparr>task_name = ''Buy milk'', task_finished = 1\<rparr>]\<rparr>)
     = unopenable_db [\<lparr>task_name = ''Buy milk'', task_finished = 1\<rparr>]"
  using clear_finished_amended
    [of "\<lparr>tasks = [\<lparr>name = ''Call mom'', is_finished = False\<rparr>],
          finished_tasks = [\<lparr>name = ''Buy milk'', is_finished = True\<rparr>],
          db = working_db [\<lparr>task_name = ''Call mom'', task_finished = 0\<rparr>,
                           \<lparr>task_name = ''Buy milk'', task_finished = 1\<rparr>]\<rparr>"]
    clear_finished_amended
    [of "\<lparr>tasks = [], finished_tasks = [\<lparr>name = ''Buy milk'', is_finished = True\<rparr>],
          db = unopenable_db [\<lparr>task_name = ''Buy milk'', task_finished = 1\<rparr>]\<rparr>"]
  by (simp add: working_db_def unopenable_db_def stored_rows_def)

section \<open>\<^verbatim>\<open>update_tasks_in_database\<close>: one update per task, keyed on the name\<close>

text \<open>
  As stated, the claim fails when the store cannot be opened: no row is updated. And two
  in-memory tasks of one name with different flags cannot both have their flag in the rows
  of that name: the later update overwrites the earlier one.
\<close>

theorem update_tasks_counterexample:
  "stored_rows (db (update_tasks_in_database
      \<lparr>tasks = [\<lparr>name = ''A'', is_finished = True\<rparr>], finished_tasks = [],
       db = unopenable_db [\<lparr>task_name = ''A'', task_finished = 0\<rparr>]\<rparr>))
     = [\<lparr>task_name = ''A'', task_finished = 0\<rparr>]
   \<and> stored_rows (db (update_tasks_in_database
      \<lparr>tasks = [\<lparr>name = ''A'', is_finished = True\<rparr>, \<lparr>name = ''A'', is_finished = False\<rparr>],
       finished_tasks = [],
       db = working_db [\<lparr>task_name = ''A'', task_finished = 0\<rparr>]\<rparr>))
     = [\<lparr>task_name = ''A'', task_finished = 0\<rparr>]"
  by (simp add: update_tasks_in_database_def sqlite3_open_def unopenable_db_def stored_rows_def
        working_db_def sqlite3_prepare_v2_def sqlite3_step_def set_finished_where_def Let_def)

text \<open>
  C6, as amended. If the store cannot be opened or written, or table \<^verbatim>\<open>tasks\<close> does not
  exist, \<^verbatim>\<open>update_tasks_in_database\<close> returns with the state unchanged. If the store can be
  opened and written and table \<^verbatim>\<open>tasks\<close> exists, the
  function runs one update for each in-memory task, in order, keyed on the name: the
  update of the task at position \<open>k\<close> takes the table as the first \<open>k\<close> updates left it,
  sets \<open>task_finished\<close> of every row with that task's name (none, one or many) to that
  task's flag, and leaves the names, the order and every other row as they were; when no
  row has the name, the table is unchanged and the next update runs. After the call every
  row has the flag of the last in-memory task with its name, and its own flag when no
  in-memory task has its name.
\<close>

theorem update_tasks_keyed_by_name:
  "(\<not> open_ok (db st) \<or> \<not> write_ok (db st) \<or> tasks_table (db st) = None \<longrightarrow>
      update_tasks_in_database st = st)
   \<and> (open_ok (db st) \<and> write_ok (db st) \<and> tasks_table (db st) = Some rows
        \<and> k < length (tasks st) \<longrightarrow>
      (\<exists>before after.
         tasks_table (db (update_tasks_in_database (st\<lparr>tasks := take k (tasks st)\<rparr>)))
           = Some before
       \<and> tasks_table (db (update_tasks_in_database (st\<lparr>tasks := take (Suc k) (tasks st)\<rparr>)))
           = Some after
       \<and> length after = length before
       \<and> (\<forall>j < length before.
            task_name (after ! j) = task_name (before ! j)
            \<and> task_finished (after ! j)
                = (if task_name (before ! j) = name (tasks st ! k)
                   then (if is_finished (tasks st ! k) then 1 else 0)
                   else task_finished (before ! j)))
       \<and> (name (tasks st ! k) \<notin> task_name ` set before \<longrightarrow> after = before)))
   \<and> (open_ok (db st) \<and> write_ok (db st) \<and> tasks_table (db st) = Some rows \<longrightarrow>
      (\<exists>final.
         tasks_table (db (update_tasks_in_database st)) = Some final
       \<and> length final = length rows
       \<and> (\<forall>j < length rows.
            task_name (final ! j) = task_name (rows ! j)
            \<and> task_finished (final ! j)
                = (case find (\<lambda>t. name t = task_name (rows ! j)) (rev (tasks st)) of
                     None \<Rightarrow> task_finished (rows ! j)
                   | Some t \<Rightarrow> if is_finished t then 1 else 0))))"
proof (intro conjI impI)
  assume "\<not> open_ok (db st) \<or> \<not> write_ok (db st) \<or> tasks_table (db st) = None"
  then show "update_tasks_in_database st = st"
    by (auto simp: update_tasks_in_database_def sqlite3_open_def update_loop_failing)
next
  assume a: "open_ok (db st) \<and> write_ok (db st) \<and> tasks_table (db st) = Some rows
        \<and> k < length (tasks st)"
  let ?f = "\<lambda>rs t. set_finished_where (if is_finished t then 1 else 0) (name t) rs"
  let ?b = "foldl ?f rows (take k (tasks st))"
  let ?t = "tasks st ! k"
  have b: "tasks_table (db (update_tasks_in_database (st\<lparr>tasks := take k (tasks st)\<rparr>)))
      = Some ?b"
    using a by (simp add: update_tasks_in_database_def sqlite3_open_def update_loop_working)
  have "take (Suc k) (tasks st) = take k (tasks st) @ [?t]"
    using a by (simp add: take_Suc_conv_app_nth)
  then have af: "tasks_table (db (update_tasks_in_database (st\<lparr>tasks := take (Suc k) (tasks st)\<rparr>)))
      = Some (set_finished_where (if is_finished ?t then 1 else 0) (name ?t) ?b)"
    using a by (simp add: update_tasks_in_database_def sqlite3_open_def update_loop_working)
  show "\<exists>before after.
         tasks_table (db (update_tasks_in_database (st\<lparr>tasks := take k (tasks st)\<rparr>)))
           = Some before
       \<and> tasks_table (db (update_tasks_in_database (st\<lparr>tasks := take (Suc k) (tasks st)\<rparr>)))
           = Some after
       \<and> length after = length before
       \<and> (\<forall>j < length before.
            task_name (after ! j) = task_name (before ! j)
            \<and> task_finished (after ! j)
                = (if task_name (before ! j) = name (tasks st ! k)
                   then (if is_finished (tasks st ! k) then 1 else 0)
                   else task_finished (before ! j)))
       \<and> (name (tasks st ! k) \<notin> task_name ` set before \<longrightarrow> after = before)"
    using b af set_finished_where_props [of "if is_finished ?t then 1 else 0" "name ?t" ?b]
    by blast
next
  assume a: "open_ok (db st) \<and> write_ok (db st) \<and> tasks_table (db st) = Some rows"
  let ?final = "foldl (\<lambda>rs t. set_finished_where (if is_finished t then 1 else 0) (name t) rs)
      rows (tasks st)"
  have "tasks_table (db (update_tasks_in_database st)) = Some ?final"
    using a by (simp add: update_tasks_in_database_def sqlite3_open_def update_loop_working)
  then show "\<exists>final.
         tasks_table (db (update_tasks_in_database st)) = Some final
       \<and> length final = length rows
       \<and> (\<forall>j < length rows.
            task_name (final ! j) = task_name (rows ! j)
            \<and> task_finished (final ! j)
                = (case find (\<lambda>t. name t = task_name (rows ! j)) (rev (tasks st)) of
                     None \<Rightarrow> task_finished (rows ! j)
                   | Some t \<Rightarrow> if is_finished t then 1 else 0))"
    using update_fold_rows [of rows "tasks st"] by blast
qed

theorem update_tasks_keyed_by_name_witness:
  "open_ok (working_db [\<lparr>task_name = ''A'', task_finished = 0\<rparr>,
                        \<lparr>task_name = ''C'', task_finished = 1\<rparr>,
                        \<lparr>task_name = ''A'', task_finished = 0\<rparr>])
   \<and> (0::nat) < length [\<lparr>name = ''A'', is_finished = True\<rparr>, \<lparr>name = ''B'', is_finished = False\<rparr>]
   \<and> tasks_table (db (update_tasks_in_database
       \<lparr>tasks = take (Suc 0) [\<lparr>name = ''A'', is_finished = True\<rparr>,
                               \<lparr>name = ''B'', is_finished = False\<rparr>],
        finished_tasks = [],
        db = working_db [\<lparr>task_name = ''A'', task_finished = 0\<rparr>,
                         \<lparr>task_name = ''C'', task_finished = 1\<rparr>,
                         \<lparr>task_name = ''A'', task_finished = 0\<rparr>]\<rparr>))
     = Some [\<lparr>task_name = ''A'', task_finished = 1\<rparr>,
             \<lparr>task_name = ''C'', task_finished = 1\<rparr>,
             \<lparr>task_name = ''A'', task_finished = 1\<rparr>]
   \<and> tasks_table (db (update_tasks_in_database
       \<lparr>tasks = [\<lparr>name = ''A'', is_finished = True\<rparr>, \<lparr>name = ''B'', is_finished = False\<rparr>],
        finished_tasks = [],
        db = working_db [\<lparr>task_name = ''A'', task_finished = 0\<rparr>,
                         \<lparr>task_name = ''C'', task_finished = 1\<rparr>,
                         \<lparr>task_name = ''A'', task_finished = 0\<rparr>]\<rparr>))
     = Some [\<lparr>task_name = ''A'', task_finished = 1\<rparr>,
             \<lparr>task_name = ''C'', task_finished = 1\<rparr>,
             \<lparr>task_name = ''A'', task_finished = 1\<rparr>]"
  using update_tasks_keyed_by_name
    [of "\<lparr>tasks = [\<lparr>name = ''A'', is_finished = True\<rparr>, \<lparr>name = ''B'', is_finished = False\<rparr>],
          finished_tasks = [],
          db = working_db [\<lparr>task_name = ''A'', task_finished = 0\<rparr>,
                           \<lparr>task_name = ''C'', task_finished = 1\<rparr>,
                           \<lparr>task_name = ''A'', task_finished = 0\<rparr>]\<rparr>"
        "[\<lparr>task_name = ''A'', task_finished = 0\<rparr>,
          \<lparr>task_name = ''C'', task_finished = 1\<rparr>,
          \<lparr>task_name = ''A'', task_finished = 0\<rparr>]" 0]
  by (simp add: update_tasks_in_database_def sqlite3_open_def working_db_def
        sqlite3_prepare_v2_def sqlite3_step_def set_finished_where_def Let_def)

section \<open>Adding a name, then loading\<close>

text \<open>
  C7 says that after \<^verbatim>\<open>add_task\<close> of a name has succeeded against storage, loading yields
  an active collection with a task of that name and \<open>is_finished = false\<close>. The code
  does otherwise at the name \<^verbatim>\<open>a''b\<close> (a doubled quote) on an empty table: the pasted
  \<^verbatim>\<open>INSERT\<close> returns \<^verbatim>\<open>SQLITE_OK\<close> and stores the name \<^verbatim>\<open>a'b\<close>, and loading then yields the
  one task \<^verbatim>\<open>a'b\<close>, none named \<^verbatim>\<open>a''b\<close>. For names without a quote character the round
  trip holds (\<open>add_then_load_plain_name\<close>).
\<close>

theorem add_then_load_doubled_quote:
  "add_task_result eng [CHR ''a'', CHR 0x27, CHR 0x27, CHR ''b'']
      \<lparr>tasks = [], finished_tasks = [], db = working_db []\<rparr> = Some SQLITE_OK
   \<and> tasks (load_tasks_from_database
        (add_task eng [CHR ''a'', CHR 0x27, CHR 0x27, CHR ''b'']
           \<lparr>tasks = [], finished_tasks = [], db = working_db []\<rparr>))
     = [\<lparr>name = [CHR ''a'', CHR 0x27, CHR ''b''], is_finished = False\<rparr>]"
  using sqlite3_exec_insert
    [of "[CHR ''a'', CHR 0x27, CHR 0x27, CHR ''b'']" "[CHR ''a'', CHR 0x27, CHR ''b'']" eng
        "working_db []"]
  by (simp add: add_task_result_def add_task_def Let_def sqlite3_open_def
        working_db_def load_tasks_from_database_def sqlite3_prepare_v2_def select_rows_def)

section \<open>Finished rows along the frame loop\<close>

text \<open>
  As stated, the claim fails: the update of \<^verbatim>\<open>delete_tasks\<close> is keyed on the name, so an
  unchecked active task un-finishes a finished row of the same name. The row leaves the
  finished collection without the clear button, and the next load puts it among the active
  tasks.
\<close>

theorem unfinish_counterexample:
  "finished_tasks (run no_engine [Frame, Add ''A'']
      (startup (working_db [\<lparr>task_name = ''A'', task_finished = 1\<rparr>])))
     = [\<lparr>name = ''A'', is_finished = True\<rparr>]
   \<and> finished_tasks (run no_engine [Frame, Add ''A'', Frame, Delete]
      (startup (working_db [\<lparr>task_name = ''A'', task_finished = 1\<rparr>]))) = []
   \<and> stored_rows (db (run no_engine [Frame, Add ''A'', Frame, Delete]
      (startup (working_db [\<lparr>task_name = ''A'', task_finished = 1\<rparr>]))))
     = [\<lparr>task_name = ''A'', task_finished = 0\<rparr>, \<lparr>task_name = ''A'', task_finished = 0\<rparr>]
   \<and> tasks (load_tasks_from_database (run no_engine [Frame, Add ''A'', Frame, Delete]
      (startup (working_db [\<lparr>task_name = ''A'', task_finished = 1\<rparr>]))))
     = [\<lparr>name = ''A'', is_finished = False\<rparr>, \<lparr>name = ''A'', is_finished = False\<rparr>]"
  using sqlite3_exec_insert [of "''A''" "''A''" no_engine
      "working_db [\<lparr>task_name = ''A'', task_finished = 1\<rparr>]"]
  by (simp add: startup_def load_tasks_from_database_def get_finished_tasks_def
        sqlite3_open_def sqlite3_prepare_v2_def select_rows_def working_db_def Let_def
        add_task_def delete_tasks_def update_tasks_in_database_def sqlite3_step_def
        set_finished_where_def erase_index_loop.simps stored_rows_def
        create_database_and_table_def)

text \<open>
  C8, as amended. For every handler of the frame loop, from every state: the active
  collection afterwards depends on the active collection before and on the event only,
  never on the finished collection or on storage; the in-memory finished collection is
  changed by no handler other than those of the delete and clear buttons; and a stored row
  with \<open>task_finished = 1\<close> whose name is not the name of an unchecked active task stays in
  its place, unchanged, under every handler other than the clear button's (for an added
  name without a quote character), and is in the finished collection after the delete
  button when the store can be opened. Along a run this keeps a finished row whose name
  no active task has and no added task gets (\<open>run_keeps_finished_row\<close>).
\<close>

theorem finished_row_stays_finished:
  "tasks (handle eng ev st) = tasks (handle eng' ev (st\<lparr>finished_tasks := f, db := d\<rparr>))
   \<and> (ev \<noteq> Delete \<and> ev \<noteq> Clear \<longrightarrow> finished_tasks (handle eng ev st) = finished_tasks st)
   \<and> (tasks_table (db st) = Some rows \<and> i < length rows \<and> task_finished (rows ! i) = 1
        \<and> (\<forall>t \<in> set (tasks st). name t = task_name (rows ! i) \<longrightarrow> is_finished t)
        \<and> ev \<noteq> Clear \<and> (\<forall>task. ev = Add task \<longrightarrow> CHR 0x27 \<notin> set task) \<longrightarrow>
      (\<exists>rows'. tasks_table (db (handle eng ev st)) = Some rows' \<and> i < length rows'
          \<and> rows' ! i = rows ! i)
      \<and> (ev = Delete \<and> open_ok (db st) \<longrightarrow>
           \<lparr>name = task_name (rows ! i), is_finished = True\<rparr>
             \<in> set (finished_tasks (handle eng ev st))))"
proof (intro conjI impI)
  show "tasks (handle eng ev st) = tasks (handle eng' ev (st\<lparr>finished_tasks := f, db := d\<rparr>))"
    by (rule tasks_handle_only_tasks)
next
  assume "ev \<noteq> Delete \<and> ev \<noteq> Clear"
  then show "finished_tasks (handle eng ev st) = finished_tasks st"
    by (simp add: finished_tasks_handle)
next
  assume h: "tasks_table (db st) = Some rows \<and> i < length rows \<and> task_finished (rows ! i) = 1
        \<and> (\<forall>t \<in> set (tasks st). name t = task_name (rows ! i) \<longrightarrow> is_finished t)
        \<and> ev \<noteq> Clear \<and> (\<forall>task. ev = Add task \<longrightarrow> CHR 0x27 \<notin> set task)"
  then show "\<exists>rows'. tasks_table (db (handle eng ev st)) = Some rows' \<and> i < length rows'
          \<and> rows' ! i = rows ! i"
    by (intro handle_keeps_finished_row) simp_all
next
  assume h: "tasks_table (db st) = Some rows \<and> i < length rows \<and> task_finished (rows ! i) = 1
        \<and> (\<forall>t \<in> set (tasks st). name t = task_name (rows ! i) \<longrightarrow> is_finished t)
        \<and> ev \<noteq> Clear \<and> (\<forall>task. ev = Add task \<longrightarrow> CHR 0x27 \<notin> set task)"
    and d: "ev = Delete \<and> open_ok (db st)"
  have "\<lparr>name = task_name (rows ! i), is_finished = True\<rparr>
      \<in> set (finished_tasks (delete_tasks st))"
    using h d by (intro delete_tasks_keeps_finished_member) simp_all
  with d show "\<lparr>name = task_name (rows ! i), is_finished = True\<rparr>
             \<in> set (finished_tasks (handle eng ev st))"
    by simp
qed

theorem finished_row_stays_finished_witness:
  "tasks_table (working_db [\<lparr>task_name = ''Buy milk'', task_finished = 0\<rparr>,
                            \<lparr>task_name = ''Pay bill'', task_finished = 1\<rparr>])
     = Some [\<lparr>task_name = ''Buy milk'', task_finished = 0\<rparr>,
             \<lparr>task_name = ''Pay bill'', task_finished = 1\<rparr>]
   \<and> (1::nat) < length [\<lparr>task_name = ''Buy milk'', task_finished = 0\<rparr>,
                         \<lparr>task_name = ''Pay bill'', task_finished = 1\<rparr>]
   \<and> task_finished ([\<lparr>task_name = ''Buy milk'', task_finished = 0\<rparr>,
                       \<lparr>task_name = ''Pay bill'', task_finished = 1\<rparr>] ! 1) = 1
   \<and> Delete \<noteq> Clear
   \<and> tasks_table (db (handle no_engine Delete
       \<lparr>tasks = [\<lparr>name = ''Buy milk'', is_finished = True\<rparr>], finished_tasks = [],
        db = working_db [\<lparr>task_name = ''Buy milk'', task_finished = 0\<rparr>,
                         \<lparr>task_name = ''Pay bill'', task_finished = 1\<rparr>]\<rparr>))
     = Some [\<lparr>task_name = ''Buy milk'', task_finished = 1\<rparr>,
             \<lparr>task_name = ''Pay bill'', task_finished = 1\<rparr>]
   \<and> \<lparr>name = ''Pay bill'', is_finished = True\<rparr>
       \<in> set (finished_tasks (handle no_engine Delete
         \<lparr>tasks = [\<lparr>name = ''Buy milk'', is_finished = True\<rparr>], finished_tasks = [],
          db = working_db [\<lparr>task_name = ''Buy milk'', task_finished = 0\<rparr>,
                           \<lparr>task_name = ''Pay bill'', task_finished = 1\<rparr>]\<rparr>))"
  using finished_row_stays_finished
    [where eng = no_engine and ev = Delete and i = 1
       and st = "\<lparr>tasks = [\<lparr>name = ''Buy milk'', is_finished = True\<rparr>], finished_tasks = [],
          db = working_db [\<lparr>task_name = ''Buy milk'', task_finished = 0\<rparr>,
                           \<lparr>task_name = ''Pay bill'', task_finished = 1\<rparr>]\<rparr>"
       and rows = "[\<lparr>task_name = ''Buy milk'', task_finished = 0\<rparr>,
          \<lparr>task_name = ''Pay bill'', task_finished = 1\<rparr>]"]
  by (simp add: delete_tasks_def update_tasks_in_database_def
        sqlite3_open_def working_db_def erase_index_loop.simps
        get_finished_tasks_def select_rows_def
        sqlite3_prepare_v2_def sqlite3_step_def set_finished_where_def Let_def)

section \<open>Loading on error\<close>

text \<open>
  C9. If the store cannot be opened, or the select statement cannot be prepared,
  \<^verbatim>\<open>load_tasks_from_database\<close> returns with the active collection (and the rest of the
  state) exactly as it was before the call.
\<close>

theorem load_tasks_error_keeps_tasks:
  "sqlite3_open (db st) \<noteq> SQLITE_OK
     \<or> sqlite3_prepare_v2 (db st) (SelectWhereFinished 0) \<noteq> SQLITE_OK \<Longrightarrow>
   tasks (load_tasks_from_database st) = tasks st \<and> load_tasks_from_database st = st"
  by (auto simp: load_tasks_from_database_def)

theorem load_tasks_error_keeps_tasks_witness:
  "sqlite3_open (unopenable_db [\<lparr>task_name = ''Buy milk'', task_finished = 0\<rparr>]) \<noteq> SQLITE_OK
   \<and> tasks (load_tasks_from_database
        \<lparr>tasks = [\<lparr>name = ''Call mom'', is_finished = True\<rparr>], finished_tasks = [],
         db = unopenable_db [\<lparr>task_name = ''Buy milk'', task_finished = 0\<rparr>]\<rparr>)
     = [\<lparr>name = ''Call mom'', is_finished = True\<rparr>]
   \<and> sqlite3_prepare_v2 \<lparr>open_ok = True, write_ok = True, tasks_table = None\<rparr>
         (SelectWhereFinished 0) \<noteq> SQLITE_OK
   \<and> tasks (load_tasks_from_database
        \<lparr>tasks = [\<lparr>name = ''Call mom'', is_finished = True\<rparr>], finished_tasks = [],
         db = \<lparr>open_ok = True, write_ok = True, tasks_table = None\<rparr>\<rparr>)
     = [\<lparr>name = ''Call mom'', is_finished = True\<rparr>]"
  using load_tasks_error_keeps_tasks
    [of "\<lparr>tasks = [\<lparr>name = ''Call mom'', is_finished = True\<rparr>], finished_tasks = [],
          db = unopenable_db [\<lparr>task_name = ''Buy milk'', task_finished = 0\<rparr>]\<rparr>"]
    load_tasks_error_keeps_tasks
    [of "\<lparr>tasks = [\<lparr>name = ''Call mom'', is_finished = True\<rparr>], finished_tasks = [],
          db = \<lparr>open_ok = True, write_ok = True, tasks_table = None\<rparr>\<rparr>"]
  by (simp add: sqlite3_open_def sqlite3_prepare_v2_def unopenable_db_def)

section \<open>Order of the tasks that \<^verbatim>\<open>delete_tasks\<close> keeps\<close>

text \<open>
  C10. For every state, the active collection after \<^verbatim>\<open>delete_tasks\<close> is a subsequence of
  the active collection before it: nothing is reordered and nothing is added. This holds
  for the index loop of \<^verbatim>\<open>src/main.cpp\<close> and for the iterator loop of \<^verbatim>\<open>build/build.sh\<close>.
\<close>

theorem delete_tasks_keeps_order:
  "subseq (tasks (delete_tasks st)) (tasks st)
   \<and> subseq (tasks (delete_tasks_glfw st)) (tasks st)"
  by (simp add: delete_tasks_def delete_tasks_glfw_def Let_def subseq_erase_index_loop
        erase_iterator_loop_filter)

end
